theory Spec2Isabelle
  imports Main "HOL-Library.Multiset"
begin

section \<open>Strings as the script uses them\<close>

text \<open>
  JavaScript strings are modelled as \<^typ>\<open>string\<close> (lists of 8-bit characters). All the
  characters the script inspects (\<open>^\<close>, \<open>~\<close>, \<open>/\<close>, \<open>?\<close>, \<open>.\<close>, letters, digits) are ASCII.
\<close>

text \<open>\<open>s.startsWith(p)\<close>\<close>

fun startsWith :: "string \<Rightarrow> string \<Rightarrow> bool" where
  "startsWith s [] = True"
| "startsWith [] (p # ps) = False"
| "startsWith (c # cs) (p # ps) = (c = p \<and> startsWith cs ps)"

text \<open>\<open>s.endsWith(p)\<close>\<close>

definition endsWith :: "string \<Rightarrow> string \<Rightarrow> bool" where
  "endsWith s p = startsWith (rev s) (rev p)"

text \<open>\<open>s.includes(p)\<close>: \<open>p\<close> occurs somewhere in \<open>s\<close>.\<close>

fun includes_str :: "string \<Rightarrow> string \<Rightarrow> bool" where
  "includes_str [] p = (p = [])"
| "includes_str (c # cs) p = (startsWith (c # cs) p \<or> includes_str cs p)"

text \<open>
  \<open>s.replace(/[\^~]/, '')\<close>: the pattern has no \<open>g\<close> flag, so only the first character
  that is a caret or a tilde is removed.
\<close>

fun replaceRangeChar :: "string \<Rightarrow> string" where
  "replaceRangeChar [] = []"
| "replaceRangeChar (c # cs) =
     (if c = CHR ''^'' \<or> c = CHR ''~'' then cs else c # replaceRangeChar cs)"

text \<open>\<open>s.replace(/\.git$/, '')\<close>: a trailing \<open>.git\<close> is removed.\<close>

definition replaceGitSuffix :: "string \<Rightarrow> string" where
  "replaceGitSuffix s = (if endsWith s ''.git'' then take (length s - 4) s else s)"

text \<open>
  \<open>s.trim()\<close> on ASCII white space: tab, line feed, vertical tab, form feed, carriage
  return and space.
\<close>

definition isWhiteSpace :: "char \<Rightarrow> bool" where
  "isWhiteSpace c = (c \<in> set [CHR 0x09, CHR 0x0A, CHR 0x0B, CHR 0x0C, CHR 0x0D, CHR '' ''])"

definition trim :: "string \<Rightarrow> string" where
  "trim s = rev (dropWhile isWhiteSpace (rev (dropWhile isWhiteSpace s)))"

text \<open>
  Template-literal rendering of an integer: decimal digits, with a leading minus sign
  for negative numbers.
\<close>

fun digitsOf :: "nat \<Rightarrow> string" where
  "digitsOf n =
     (if n < 10 then [''0123456789'' ! n]
      else digitsOf (n div 10) @ [''0123456789'' ! (n mod 10)])"

declare digitsOf.simps [simp del]

definition numberToString :: "int \<Rightarrow> string" where
  "numberToString i = (if i < 0 then ''-'' @ digitsOf (nat (- i)) else digitsOf (nat i))"

section \<open>Policy data\<close>

text \<open>The \<open>APPROVED_LICENSES\<close> set (Apache-2.0 is handled apart, as auto-approved).\<close>

definition APPROVED_LICENSES :: "string list" where
  "APPROVED_LICENSES =
     [''BSD-2-Clause'', ''BSD-2-Clause-FreeBSD'', ''BSD-3-Clause'', ''MIT'', ''ISC'',
      ''Python-2.0'', ''BSL-1.0'', ''Boost'', ''bzip2-1.0.6'', ''OLDAP-2.7'', ''OLDAP-2.8'',
      ''PostgreSQL'', ''TCL'', ''W3C'', ''X11'', ''Zlib'', ''OFL-1.0'', ''OFL-1.1'',
      ''CC-BY-1.0'', ''CC-BY-2.0'', ''CC-BY-2.5'', ''CC-BY-3.0'', ''Public Domain'',
      ''Unlicense'']"

text \<open>\<open>APPROVED_LICENSES.has(license)\<close>\<close>

definition APPROVED_LICENSES_has :: "string \<Rightarrow> bool" where
  "APPROVED_LICENSES_has license = (license \<in> set APPROVED_LICENSES)"

text \<open>
  The auto-approval test of \<open>checkPackageCompliance\<close>:
  \<open>license === 'Apache-2.0' || license === 'Apache 2.0'\<close>.
\<close>

definition isAutoApproved :: "string \<Rightarrow> bool" where
  "isAutoApproved license = (license = ''Apache-2.0'' \<or> license = ''Apache 2.0'')"

section \<open>The world outside the script\<close>

text \<open>
  A value found in a manifest's dependency mapping. \<open>JSON.parse\<close> may deliver any JSON value
  there; the script only ever calls the string method \<open>replace\<close> on it, so all that matters
  is whether the value is a string.
\<close>

datatype json_value = JString string | JNonString

text \<open>The parsed manifest, as far as \<open>verifyDependencies\<close> reads it.\<close>

record packageJson =
  pkg_name :: string
  pkg_version :: string
  dependencies :: "(string \<times> json_value) list"
  devDependencies :: "(string \<times> json_value) list"

text \<open>
  The fields of the hosting API's answer that \<open>getGitHubStats\<close> reads. \<open>created_at\<close> is the
  creation time in milliseconds since the epoch, as \<open>new Date(data.created_at)\<close> yields it.
  The three fields are integers of either sign; an answer in which one of them is missing
  or not a number is outside this model.
\<close>

record repoData =
  stargazers_count :: int
  forks_count :: int
  created_at :: int

text \<open>
  Everything the script obtains from outside is a field of the environment:
  \<^item> \<open>execSync\<close> maps a shell command to its standard output, \<open>None\<close> when the call throws;
  \<^item> \<open>readFileSync\<close> maps a path to the file's text, \<open>None\<close> when the call throws;
  \<^item> \<open>pathJoin\<close> is \<open>path.join\<close>;
  \<^item> \<open>parsePackageJson\<close> and \<open>parseRepoData\<close> are \<open>JSON.parse\<close> on a manifest and on a
    repository description, \<open>None\<close> when the call throws; a manifest text may also parse
    to \<open>null\<close>, which is \<open>Some None\<close>;
  \<^item> \<open>platform\<close> is \<open>process.platform\<close>, and \<open>now\<close> is \<open>new Date()\<close> in milliseconds.
\<close>

record env =
  platform :: string
  execSync :: "string \<Rightarrow> string option"
  readFileSync :: "string \<Rightarrow> string option"
  pathJoin :: "string \<Rightarrow> string \<Rightarrow> string"
  parsePackageJson :: "string \<Rightarrow> packageJson option option"
  parseRepoData :: "string \<Rightarrow> repoData option"
  now :: int

text \<open>
  The ways a call can fail. \<open>InvalidInput\<close> is the error the specification names for
  malformed statistics; no function of the script produces it.
\<close>

datatype error =
  TypeError
  | SyntaxError
  | InvalidGitHubUrl
  | FetchFailed
  | ReadFailed
  | InvalidInput

section \<open>Metadata lookups\<close>

text \<open>The shell commands, with the platform's way of discarding the error stream.\<close>

definition npmViewCommand :: "env \<Rightarrow> string \<Rightarrow> string \<Rightarrow> string" where
  "npmViewCommand e cleanSpec field =
     (if platform e = ''win32''
      then ''npm view '' @ [CHR 0x22] @ cleanSpec @ [CHR 0x22] @ '' '' @ field @ '' 2>nul''
      else ''npm view '' @ [CHR 0x22] @ cleanSpec @ [CHR 0x22] @ '' '' @ field @ '' 2>/dev/null'')"

definition ghApiCommand :: "env \<Rightarrow> string \<Rightarrow> string" where
  "ghApiCommand e repoName =
     (if platform e = ''win32''
      then ''gh api repos/'' @ repoName @ '' 2>nul''
      else ''gh api repos/'' @ repoName @ '' 2>/dev/null'')"

text \<open>\<open>getPackageLicense\<close>: every failure, and an empty answer, become \<open>'Unknown'\<close>.\<close>

definition getPackageLicense :: "env \<Rightarrow> string \<Rightarrow> string" where
  "getPackageLicense e packageSpec =
     (let cleanSpec = replaceRangeChar packageSpec in
      case execSync e (npmViewCommand e cleanSpec ''license'') of
        None \<Rightarrow> ''Unknown''
      | Some out \<Rightarrow> (let license = trim out in if license = [] then ''Unknown'' else license))"

text \<open>
  The pattern \<open>/github\.com[/:]([\w-]+\/[\w.-]+)/\<close> of \<open>getPackageRepo\<close>, tried at the start
  of a string. Both character classes exclude \<open>/\<close>, so the greedy runs are the longest runs.
\<close>

definition isWordChar :: "char \<Rightarrow> bool" where
  "isWordChar c =
     (let n = (of_char c :: nat) in
      (of_char CHR ''a'' \<le> n \<and> n \<le> of_char CHR ''z'')
      \<or> (of_char CHR ''A'' \<le> n \<and> n \<le> of_char CHR ''Z'')
      \<or> (of_char CHR ''0'' \<le> n \<and> n \<le> of_char CHR ''9'')
      \<or> c = CHR ''_'')"

definition isOwnerChar :: "char \<Rightarrow> bool" where
  "isOwnerChar c = (isWordChar c \<or> c = CHR ''-'')"

definition isRepoChar :: "char \<Rightarrow> bool" where
  "isRepoChar c = (isWordChar c \<or> c = CHR ''.'' \<or> c = CHR ''-'')"

definition matchRepoUrlAt :: "string \<Rightarrow> string option" where
  "matchRepoUrlAt s =
     (if startsWith s ''github.com'' then
        (case drop 10 s of
           [] \<Rightarrow> None
         | sep # r \<Rightarrow>
            if sep = CHR ''/'' \<or> sep = CHR '':'' then
              (let owner = takeWhile isOwnerChar r in
               case dropWhile isOwnerChar r of
                 [] \<Rightarrow> None
               | slash # r' \<Rightarrow>
                  (let repoName = takeWhile isRepoChar r' in
                   if owner \<noteq> [] \<and> slash = CHR ''/'' \<and> repoName \<noteq> []
                   then Some (owner @ ''/'' @ repoName) else None))
            else None)
      else None)"

text \<open>\<open>repoOutput.match(...)\<close>: the leftmost position where the pattern matches.\<close>

fun matchRepoUrl :: "string \<Rightarrow> string option" where
  "matchRepoUrl [] = None"
| "matchRepoUrl (c # cs) =
     (case matchRepoUrlAt (c # cs) of Some m \<Rightarrow> Some m | None \<Rightarrow> matchRepoUrl cs)"

text \<open>\<open>getPackageRepo\<close>: \<open>None\<close> is the script's \<open>null\<close>.\<close>

definition getPackageRepo :: "env \<Rightarrow> string \<Rightarrow> string option" where
  "getPackageRepo e packageSpec =
     (let cleanSpec = replaceRangeChar packageSpec in
      case execSync e (npmViewCommand e cleanSpec ''repository.url'') of
        None \<Rightarrow> None
      | Some out \<Rightarrow>
         (case matchRepoUrl (trim out) of
            None \<Rightarrow> None
          | Some m \<Rightarrow> Some (replaceGitSuffix m)))"

text \<open>The statistics record built by \<open>getGitHubStats\<close>.\<close>

record stats =
  stars :: int
  forks :: int
  created :: int
  age :: int
  actualRepo :: string

text \<open>The list of repository names to try, in order.\<close>

definition repoVariations :: "string \<Rightarrow> string list" where
  "repoVariations repo =
     [repo,
      if endsWith repo ''.js'' then repo else repo @ ''.js'',
      if endsWith repo ''.js'' then take (length repo - 3) repo else repo,
      if endsWith repo ''-js'' then repo else repo @ ''-js'',
      if endsWith repo ''-js'' then take (length repo - 3) repo else repo]"

text \<open>
  One turn of the loop body: run the command, parse its output, build the record. The age
  is \<open>Math.floor\<close> of the elapsed time over thirty days; \<open>div\<close> on \<^typ>\<open>int\<close> rounds down too.
  Nothing checks the counts for their sign.
\<close>

definition tryGitHubStats :: "env \<Rightarrow> string \<Rightarrow> stats option" where
  "tryGitHubStats e repoName =
     (case execSync e (ghApiCommand e repoName) of
        None \<Rightarrow> None
      | Some out \<Rightarrow>
         (case parseRepoData e out of
            None \<Rightarrow> None
          | Some d \<Rightarrow>
             Some \<lparr>stars = stargazers_count d,
                   forks = forks_count d,
                   created = created_at d,
                   age = (now e - created_at d) div (1000 * 60 * 60 * 24 * 30),
                   actualRepo = repoName\<rparr>))"

text \<open>The loop over the variations: the first that answers wins, \<open>None\<close> when none does.\<close>

fun firstGitHubStats :: "env \<Rightarrow> string list \<Rightarrow> stats option" where
  "firstGitHubStats e [] = None"
| "firstGitHubStats e (repoName # rest) =
     (case tryGitHubStats e repoName of
        Some s \<Rightarrow> Some s
      | None \<Rightarrow> firstGitHubStats e rest)"

text \<open>\<open>getGitHubStats\<close>: a \<open>null\<close> or empty repository name gives \<open>null\<close> at once.\<close>

definition getGitHubStats :: "env \<Rightarrow> string option \<Rightarrow> stats option" where
  "getGitHubStats e repo =
     (case repo of
        None \<Rightarrow> None
      | Some r \<Rightarrow> if r = [] then None else firstGitHubStats e (repoVariations r))"

section \<open>The compliance decision\<close>

record result =
  name :: string
  version :: string
  license :: string
  repo :: "string option"
  githubStats :: "stats option"
  status :: string
  reason :: string

text \<open>The three figures as the reasons print them.\<close>

definition figures :: "stats \<Rightarrow> string" where
  "figures s =
     ''('' @ numberToString (stars s) @ '' stars, '' @ numberToString (forks s)
       @ '' forks, '' @ numberToString (age s) @ '' months old)''"

text \<open>
  \<open>checkPackageCompliance\<close>. Calling \<open>replace\<close> on a version that is not a string throws a
  \<open>TypeError\<close>, which nothing in the function catches. The lookups never throw.
\<close>

definition checkPackageCompliance :: "env \<Rightarrow> string \<Rightarrow> json_value \<Rightarrow> error + result" where
  "checkPackageCompliance e packageName ver =
     (case ver of
        JNonString \<Rightarrow> Inl TypeError
      | JString v \<Rightarrow>
         (let cleanVersion = replaceRangeChar v;
              packageSpec = packageName @ ''@'' @ cleanVersion;
              license = getPackageLicense e packageSpec;
              repo = getPackageRepo e packageSpec;
              githubStats = getGitHubStats e repo;
              result = \<lparr>name = packageName, version = cleanVersion, license = license,
                        repo = repo, githubStats = githubStats,
                        status = ''unknown'', reason = []\<rparr>
          in Inr
            (if isAutoApproved license then
               result\<lparr>status := ''approved'',
                      reason := ''Apache-2.0 license (automatically approved)''\<rparr>
             else if APPROVED_LICENSES_has license then
               (case githubStats of
                  Some s \<Rightarrow>
                    if age s \<ge> 12 \<and> (stars s \<ge> 10 \<or> forks s \<ge> 10) then
                      result\<lparr>status := ''approved'',
                             reason := license @ '' license with substantial use '' @ figures s\<rparr>
                    else
                      result\<lparr>status := ''needs-review'',
                             reason := license @ '' license but insufficient GitHub adoption ''
                                         @ figures s\<rparr>
                | None \<Rightarrow>
                    result\<lparr>status := ''needs-review'',
                           reason := license
                                       @ '' license (approved) but unable to verify substantial use''\<rparr>)
             else
               result\<lparr>status := ''rejected'',
                      reason := license @ '' license is not on the LFDT approved list''\<rparr>)))"

section \<open>Manifest acquisition\<close>

text \<open>
  The pattern \<open>/github\.com\/([^\/]+)\/([^\/\?]+)/\<close>, tried at the start of a string: the
  owner is the longest run without a slash, the repository the longest run without a slash
  or a question mark. The pair is \<open>(match[1], match[2])\<close>.
\<close>

definition matchGitHubUrlAt :: "string \<Rightarrow> (string \<times> string) option" where
  "matchGitHubUrlAt s =
     (if startsWith s ''github.com/'' then
        (let r = drop 11 s;
             owner = takeWhile (\<lambda>c. c \<noteq> CHR ''/'') r in
         case dropWhile (\<lambda>c. c \<noteq> CHR ''/'') r of
           [] \<Rightarrow> None
         | slash # r' \<Rightarrow>
            (let repoName = takeWhile (\<lambda>c. c \<noteq> CHR ''/'' \<and> c \<noteq> CHR ''?'') r' in
             if owner \<noteq> [] \<and> repoName \<noteq> [] then Some (owner, repoName) else None))
      else None)"

text \<open>\<open>url.match(...)\<close> with the first pattern: the leftmost position where it matches.\<close>

fun matchGitHubUrl :: "string \<Rightarrow> (string \<times> string) option" where
  "matchGitHubUrl [] = None"
| "matchGitHubUrl (c # cs) =
     (case matchGitHubUrlAt (c # cs) of Some m \<Rightarrow> Some m | None \<Rightarrow> matchGitHubUrl cs)"

text \<open>
  The pattern \<open>/^([^\/]+)\/([^\/]+)$/\<close>: the whole string is two non-empty segments around
  one slash.
\<close>

definition matchOwnerRepo :: "string \<Rightarrow> (string \<times> string) option" where
  "matchOwnerRepo s =
     (let owner = takeWhile (\<lambda>c. c \<noteq> CHR ''/'') s in
      case dropWhile (\<lambda>c. c \<noteq> CHR ''/'') s of
        [] \<Rightarrow> None
      | slash # r \<Rightarrow>
         if owner \<noteq> [] \<and> r \<noteq> [] \<and> CHR ''/'' \<notin> set r then Some (owner, r) else None)"

text \<open>
  The loop over the two patterns: the first that matches sets \<open>owner\<close> and \<open>repo\<close> (the latter
  without a trailing \<open>.git\<close>); \<open>None\<close> leaves both undefined.
\<close>

definition extractOwnerRepo :: "string \<Rightarrow> (string \<times> string) option" where
  "extractOwnerRepo url =
     (case matchGitHubUrl url of
        Some (owner, r) \<Rightarrow> Some (owner, replaceGitSuffix r)
      | None \<Rightarrow>
         (case matchOwnerRepo url of
            Some (owner, r) \<Rightarrow> Some (owner, replaceGitSuffix r)
          | None \<Rightarrow> None))"

definition ghContentsCommand :: "string \<Rightarrow> string \<Rightarrow> string" where
  "ghContentsCommand owner repoName =
     ''gh api repos/'' @ owner @ ''/'' @ repoName
       @ ''/contents/package.json --jq '' @ [CHR 0x27] @ ''.content'' @ [CHR 0x27]
       @ '' | base64 -d''"

definition curlCommand :: "string \<Rightarrow> string \<Rightarrow> string" where
  "curlCommand owner repoName =
     ''curl -s https://raw.githubusercontent.com/'' @ owner @ ''/'' @ repoName
       @ ''/main/package.json''"

text \<open>
  Running a command and parsing its output as a manifest; \<open>None\<close> when either step throws.
  A parsed manifest is \<open>None\<close> when the text is the JSON value \<open>null\<close>.
\<close>

definition fetchAndParse :: "env \<Rightarrow> string \<Rightarrow> packageJson option option" where
  "fetchAndParse e cmd =
     (case execSync e cmd of None \<Rightarrow> None | Some out \<Rightarrow> parsePackageJson e out)"

text \<open>
  \<open>fetchPackageJsonFromGitHub\<close>: \<open>Inl\<close> is the thrown error. The \<open>gh\<close> command is tried
  first, \<open>curl\<close> when it fails.
\<close>

definition fetchPackageJsonFromGitHub :: "env \<Rightarrow> string \<Rightarrow> error + packageJson option" where
  "fetchPackageJsonFromGitHub e url =
     (case extractOwnerRepo url of
        None \<Rightarrow> Inl InvalidGitHubUrl
      | Some (owner, repoName) \<Rightarrow>
         if owner = [] \<or> repoName = [] then Inl InvalidGitHubUrl
         else
           (case fetchAndParse e (ghContentsCommand owner repoName) of
              Some pj \<Rightarrow> Inr pj
            | None \<Rightarrow>
               (case fetchAndParse e (curlCommand owner repoName) of
                  Some pj \<Rightarrow> Inr pj
                | None \<Rightarrow> Inl FetchFailed)))"

text \<open>
  \<open>getPackageJson\<close>: \<open>Inl err\<close> stands for the \<open>catch\<close> branch, which prints the error
  and ends the process with \<open>process.exit(1)\<close>.
\<close>

definition getPackageJson :: "env \<Rightarrow> string \<Rightarrow> error + packageJson option" where
  "getPackageJson e source =
     (if includes_str source ''github.com'' \<or> includes_str source ''/'' then
        fetchPackageJsonFromGitHub e source
      else
        (case readFileSync e (pathJoin e source ''package.json'') of
           None \<Rightarrow> Inl ReadFailed
         | Some txt \<Rightarrow>
            (case parsePackageJson e txt of
               None \<Rightarrow> Inl SyntaxError
             | Some pj \<Rightarrow> Inr pj)))"

section \<open>The batch loop and the aggregate outcome\<close>

text \<open>
  Objects are association lists in insertion order. Assigning a property that exists keeps
  its place and replaces its value; a new property goes to the end. (JavaScript lists
  properties whose names are array indices first; only the order differs.)
\<close>

fun setProperty :: "string \<Rightarrow> 'v \<Rightarrow> (string \<times> 'v) list \<Rightarrow> (string \<times> 'v) list" where
  "setProperty k v [] = [(k, v)]"
| "setProperty k v ((k', v') # rest) =
     (if k = k' then (k, v) # rest else (k', v') # setProperty k v rest)"

text \<open>The spread \<open>{...obj, ...props}\<close> copies the properties of \<open>props\<close> in order.\<close>

definition spread :: "(string \<times> 'v) list \<Rightarrow> (string \<times> 'v) list \<Rightarrow> (string \<times> 'v) list" where
  "spread obj props = fold (\<lambda>(k, v) acc. setProperty k v acc) props obj"

definition allDependencies :: "packageJson \<Rightarrow> (string \<times> json_value) list" where
  "allDependencies pj = spread (spread [] (dependencies pj)) (devDependencies pj)"

record results =
  approved :: "result list"
  needsReview :: "result list"
  rejected :: "result list"

definition emptyResults :: results where
  "emptyResults = \<lparr>approved = [], needsReview = [], rejected = []\<rparr>"

text \<open>The \<open>switch\<close> on the status: it has no default branch.\<close>

definition pushResult :: "result \<Rightarrow> results \<Rightarrow> results" where
  "pushResult r rs =
     (if status r = ''approved'' then rs\<lparr>approved := approved rs @ [r]\<rparr>
      else if status r = ''needs-review'' then rs\<lparr>needsReview := needsReview rs @ [r]\<rparr>
      else if status r = ''rejected'' then rs\<lparr>rejected := rejected rs @ [r]\<rparr>
      else rs)"

text \<open>The \<open>for\<close> loop over the entries; an exception ends it.\<close>

fun checkEach :: "env \<Rightarrow> (string \<times> json_value) list \<Rightarrow> results \<Rightarrow> error + results" where
  "checkEach e [] rs = Inr rs"
| "checkEach e ((packageName, ver) # rest) rs =
     (case checkPackageCompliance e packageName ver of
        Inl err \<Rightarrow> Inl err
      | Inr r \<Rightarrow> checkEach e rest (pushResult r rs))"

text \<open>
  How a run ends: the exit status, the last message, and the report when the loop finished.
\<close>

datatype message =
  Usage
  | ErrorReadingPackageJson error
  | UncaughtError error
  | ErrorNonCompliant nat
  | WarningNeedReview nat
  | SuccessAllCompliant

record outcome =
  exitStatus :: nat
  finalMessage :: message
  report :: "results option"

text \<open>The end of \<open>verifyDependencies\<close>: only the first branch calls \<open>process.exit(1)\<close>.\<close>

definition aggregate :: "results \<Rightarrow> outcome" where
  "aggregate rs =
     (if length (rejected rs) > 0 then
        \<lparr>exitStatus = 1, finalMessage = ErrorNonCompliant (length (rejected rs)),
         report = Some rs\<rparr>
      else if length (needsReview rs) > 0 then
        \<lparr>exitStatus = 0, finalMessage = WarningNeedReview (length (needsReview rs)),
         report = Some rs\<rparr>
      else
        \<lparr>exitStatus = 0, finalMessage = SuccessAllCompliant, report = Some rs\<rparr>)"

text \<open>
  \<open>verifyDependencies\<close> together with the handler attached to its promise: an exception
  that escapes (reading a field of \<open>null\<close>, a version that is not a string) is printed and
  the process ends with status 1.
\<close>

definition verifyDependencies :: "env \<Rightarrow> string \<Rightarrow> outcome" where
  "verifyDependencies e source =
     (case getPackageJson e source of
        Inl err \<Rightarrow>
          \<lparr>exitStatus = 1, finalMessage = ErrorReadingPackageJson err, report = None\<rparr>
      | Inr None \<Rightarrow>
          \<lparr>exitStatus = 1, finalMessage = UncaughtError TypeError, report = None\<rparr>
      | Inr (Some pj) \<Rightarrow>
          (case checkEach e (allDependencies pj) emptyResults of
             Inl err \<Rightarrow> \<lparr>exitStatus = 1, finalMessage = UncaughtError err, report = None\<rparr>
           | Inr rs \<Rightarrow> aggregate rs))"

text \<open>The command line: the first argument is the source, \<open>--help\<close> and \<open>-h\<close> print the usage.\<close>

definition main :: "env \<Rightarrow> string list \<Rightarrow> outcome" where
  "main e args =
     (case args of
        [] \<Rightarrow> verifyDependencies e ''.''
      | a # _ \<Rightarrow>
         if a = ''--help'' \<or> a = ''-h''
         then \<lparr>exitStatus = 0, finalMessage = Usage, report = None\<rparr>
         else verifyDependencies e a)"

text \<open>The evaluation of one entry, when it does not throw.\<close>

definition evaluated :: "env \<Rightarrow> string \<times> json_value \<Rightarrow> result" where
  "evaluated e entry = projr (checkPackageCompliance e (fst entry) (snd entry))"

abbreviation allBuckets :: "results \<Rightarrow> result list" where
  "allBuckets rs \<equiv> approved rs @ needsReview rs @ rejected rs"

text \<open>The characters of the class \<open>[\^~]\<close>.\<close>

definition isRangeChar :: "char \<Rightarrow> bool" where
  "isRangeChar c = (c = CHR ''^'' \<or> c = CHR ''~'')"

text \<open>How many of them a string holds.\<close>

definition rangeChars :: "string \<Rightarrow> nat" where
  "rangeChars s = length (filter isRangeChar s)"

text \<open>The license and the statistics that \<open>checkPackageCompliance\<close> looks up for a dependency.\<close>

abbreviation licenseOf :: "env \<Rightarrow> string \<Rightarrow> string \<Rightarrow> string" where
  "licenseOf e packageName v \<equiv> getPackageLicense e (packageName @ ''@'' @ replaceRangeChar v)"

abbreviation statsOf :: "env \<Rightarrow> string \<Rightarrow> string \<Rightarrow> stats option" where
  "statsOf e packageName v \<equiv>
     getGitHubStats e (getPackageRepo e (packageName @ ''@'' @ replaceRangeChar v))"

section \<open>Sample worlds\<close>

text \<open>
  A world in which the registry answers the license query with \<open>lic\<close> and the repository
  query with \<open>url\<close>, and the hosting API describes every repository as \<open>d\<close>. The clock stands
  at 24 periods of thirty days (and a little more) after the epoch.
\<close>

definition sampleWorld :: "string option \<Rightarrow> string option \<Rightarrow> repoData option \<Rightarrow> env" where
  "sampleWorld lic url d =
     \<lparr>platform = ''linux'',
      execSync = (\<lambda>cmd.
        if startsWith cmd ''npm view '' \<and> endsWith cmd '' license 2>/dev/null'' then lic
        else if startsWith cmd ''npm view '' \<and> endsWith cmd '' repository.url 2>/dev/null'' then url
        else if startsWith cmd ''gh api repos/'' then Some ''{}''
        else None),
      readFileSync = (\<lambda>p. None),
      pathJoin = (\<lambda>a b. a @ ''/'' @ b),
      parsePackageJson = (\<lambda>t. None),
      parseRepoData = (\<lambda>t. d),
      now = 24 * 2592000000 + 5\<rparr>"

definition leftPadUrl :: string where
  "leftPadUrl = ''git+https://github.com/left-pad/left-pad.git''"

text \<open>A repository created at the epoch, with 50 stars and 5 forks.\<close>

definition popularRepo :: repoData where
  "popularRepo = \<lparr>stargazers_count = 50, forks_count = 5, created_at = 0\<rparr>"

text \<open>A repository created a moment ago, with no stars and no forks.\<close>

definition emptyRepo :: repoData where
  "emptyRepo = \<lparr>stargazers_count = 0, forks_count = 0, created_at = 24 * 2592000000\<rparr>"

text \<open>A repository whose description carries a negative star count.\<close>

definition negativeStarsRepo :: repoData where
  "negativeStarsRepo = \<lparr>stargazers_count = - 5, forks_count = 20, created_at = 0\<rparr>"

text \<open>
  A world with a project in the current directory whose manifest parses to \<open>pj\<close>. The
  registry knows the license of the packages listed in \<open>registry\<close> and no repository; the
  hosting API does not answer.
\<close>

definition projectWorld :: "(string \<times> string) list \<Rightarrow> packageJson \<Rightarrow> env" where
  "projectWorld registry pj =
     \<lparr>platform = ''linux'',
      execSync = (\<lambda>cmd.
        if startsWith cmd ''npm view '' \<and> endsWith cmd '' license 2>/dev/null''
        then map_option snd (find (\<lambda>(n, l). includes_str cmd ([CHR 0x22] @ n @ ''@'')) registry)
        else None),
      readFileSync = (\<lambda>p. if p = ''package.json'' then Some ''{}'' else None),
      pathJoin = (\<lambda>a b. if a = ''.'' then b else a @ ''/'' @ b),
      parsePackageJson = (\<lambda>t. Some (Some pj)),
      parseRepoData = (\<lambda>t. None),
      now = 0\<rparr>"

definition sampleRegistry :: "(string \<times> string) list" where
  "sampleRegistry =
     [(''alpha'', ''Apache-2.0''), (''mit-pkg'', ''MIT''), (''gpl-pkg'', ''GPL-3.0'')]"

definition manifestOf :: "(string \<times> json_value) list \<Rightarrow> (string \<times> json_value) list \<Rightarrow> packageJson" where
  "manifestOf deps devDeps =
     \<lparr>pkg_name = ''demo'', pkg_version = ''0.1.0'', dependencies = deps,
      devDependencies = devDeps\<rparr>"

text \<open>Three projects: one with a rejected dependency, one with a dependency to review, one clean.\<close>

definition rejectedProject :: env where
  "rejectedProject =
     projectWorld sampleRegistry
       (manifestOf [(''alpha'', JString ''^1.0.0''), (''mit-pkg'', JString ''~2.0.0'')]
                   [(''gpl-pkg'', JString ''3.0.0'')])"

definition reviewProject :: env where
  "reviewProject =
     projectWorld sampleRegistry
       (manifestOf [(''alpha'', JString ''^1.0.0''), (''mit-pkg'', JString ''~2.0.0'')] [])"

definition cleanProject :: env where
  "cleanProject = projectWorld sampleRegistry (manifestOf [(''alpha'', JString ''^1.0.0'')] [])"

text \<open>A project that declares \<open>alpha\<close> in both mappings.\<close>

definition overlapManifest :: packageJson where
  "overlapManifest =
     manifestOf [(''alpha'', JString ''^1.0.0''), (''mit-pkg'', JString ''~2.0.0'')]
                [(''gpl-pkg'', JString ''3.0.0''), (''alpha'', JString ''1.5.0'')]"

definition overlapProject :: env where
  "overlapProject = projectWorld sampleRegistry overlapManifest"

section \<open>Properties of the policy\<close>

lemma approved_list_not_auto: "APPROVED_LICENSES_has l \<Longrightarrow> \<not> isAutoApproved l"
  by (auto simp: APPROVED_LICENSES_has_def APPROVED_LICENSES_def isAutoApproved_def)

lemma apache_identifiers_differ: "''Apache-2.0'' \<noteq> ''Apache 2.0''"
  by simp

text \<open>
  Claim C1. For a license on the approved list and statistics \<open>S\<close> that are present,
  \<open>checkPackageCompliance\<close> returns status \<open>approved\<close> exactly when the repository is at least
  12 months old and has at least 10 stars or at least 10 forks; when that test fails the
  status is \<open>needs-review\<close>, and it is never \<open>rejected\<close>.
\<close>

theorem conditional_license_adoption_gate:
  assumes "APPROVED_LICENSES_has (licenseOf e packageName v)"
    and "statsOf e packageName v = Some S"
  shows "\<exists>r. checkPackageCompliance e packageName (JString v) = Inr r
           \<and> githubStats r = Some S
           \<and> (status r = ''approved'' \<longleftrightarrow> age S \<ge> 12 \<and> (stars S \<ge> 10 \<or> forks S \<ge> 10))
           \<and> (\<not> (age S \<ge> 12 \<and> (stars S \<ge> 10 \<or> forks S \<ge> 10)) \<longrightarrow> status r = ''needs-review'')
           \<and> status r \<noteq> ''rejected''"
  using assms approved_list_not_auto [OF assms(1)]
  by (simp add: checkPackageCompliance_def Let_def)

theorem conditional_license_adoption_gate_witness:
  "APPROVED_LICENSES_has
     (licenseOf (sampleWorld (Some ''MIT'') (Some leftPadUrl) (Some popularRepo)) ''left-pad'' ''^1.3.0'')
   \<and> statsOf (sampleWorld (Some ''MIT'') (Some leftPadUrl) (Some popularRepo)) ''left-pad'' ''^1.3.0''
       = Some \<lparr>stars = 50, forks = 5, created = 0, age = 24, actualRepo = ''left-pad/left-pad''\<rparr>
   \<and> (\<exists>r. checkPackageCompliance (sampleWorld (Some ''MIT'') (Some leftPadUrl) (Some popularRepo))
              ''left-pad'' (JString ''^1.3.0'') = Inr r
         \<and> status r = ''approved'')"
proof -
  let ?e = "sampleWorld (Some ''MIT'') (Some leftPadUrl) (Some popularRepo)"
  let ?S = "\<lparr>stars = 50, forks = 5, created = 0, age = 24, actualRepo = ''left-pad/left-pad''\<rparr>"
  have h1: "APPROVED_LICENSES_has (licenseOf ?e ''left-pad'' ''^1.3.0'')"
    by code_simp
  have h2: "statsOf ?e ''left-pad'' ''^1.3.0'' = Some ?S"
    by code_simp
  from conditional_license_adoption_gate [OF h1 h2] h1 h2 show ?thesis
    by auto
qed

text \<open>
  Claim C2. When the looked-up license passes the auto-approval test, the status is
  \<open>approved\<close> and the reason is the fixed auto-approval text, whatever statistics \<open>S\<close> were
  found (none, or any figures): the adoption test plays no part.
\<close>

theorem auto_approved_whatever_stats:
  assumes "isAutoApproved (licenseOf e packageName v)"
    and "statsOf e packageName v = S"
  shows "\<exists>r. checkPackageCompliance e packageName (JString v) = Inr r
           \<and> githubStats r = S
           \<and> status r = ''approved''
           \<and> reason r = ''Apache-2.0 license (automatically approved)''"
  using assms by (simp add: checkPackageCompliance_def Let_def)

theorem auto_approved_whatever_stats_witness:
  "isAutoApproved (licenseOf (sampleWorld (Some ''Apache-2.0'') (Some leftPadUrl) (Some emptyRepo)) ''left-pad'' ''~1.3.0'')
   \<and> statsOf (sampleWorld (Some ''Apache-2.0'') (Some leftPadUrl) (Some emptyRepo)) ''left-pad'' ''~1.3.0''
       = Some \<lparr>stars = 0, forks = 0, created = 62208000000, age = 0, actualRepo = ''left-pad/left-pad''\<rparr>
   \<and> isAutoApproved (licenseOf (sampleWorld (Some ''Apache 2.0'') None None) ''left-pad'' ''~1.3.0'')
   \<and> statsOf (sampleWorld (Some ''Apache 2.0'') None None) ''left-pad'' ''~1.3.0'' = None
   \<and> (\<exists>r. checkPackageCompliance (sampleWorld (Some ''Apache-2.0'') (Some leftPadUrl) (Some emptyRepo))
              ''left-pad'' (JString ''~1.3.0'') = Inr r
         \<and> status r = ''approved'')
   \<and> (\<exists>r. checkPackageCompliance (sampleWorld (Some ''Apache 2.0'') None None)
              ''left-pad'' (JString ''~1.3.0'') = Inr r
         \<and> status r = ''approved'')"
proof -
  let ?e = "sampleWorld (Some ''Apache-2.0'') (Some leftPadUrl) (Some emptyRepo)"
  let ?e' = "sampleWorld (Some ''Apache 2.0'') None None"
  let ?S = "Some \<lparr>stars = 0, forks = 0, created = 62208000000, age = 0, actualRepo = ''left-pad/left-pad''\<rparr>"
  have h1: "isAutoApproved (licenseOf ?e ''left-pad'' ''~1.3.0'')"
    by code_simp
  have h2: "statsOf ?e ''left-pad'' ''~1.3.0'' = ?S"
    by code_simp
  have h3: "isAutoApproved (licenseOf ?e' ''left-pad'' ''~1.3.0'')"
    by code_simp
  have h4: "statsOf ?e' ''left-pad'' ''~1.3.0'' = None"
    by code_simp
  from auto_approved_whatever_stats [OF h1 h2] auto_approved_whatever_stats [OF h3 h4]
    h1 h2 h3 h4
  show ?thesis by auto
qed

text \<open>
  Claim C3. When the looked-up license neither passes the auto-approval test nor is on the
  approved list, the status is \<open>rejected\<close>, whatever statistics \<open>S\<close> were found. The
  \<open>'Unknown'\<close> license, which \<open>getPackageLicense\<close> returns when the registry query fails, is
  such a license.
\<close>

theorem other_license_rejected:
  assumes "\<not> isAutoApproved (licenseOf e packageName v)"
    and "\<not> APPROVED_LICENSES_has (licenseOf e packageName v)"
    and "statsOf e packageName v = S"
  shows "(\<exists>r. checkPackageCompliance e packageName (JString v) = Inr r
            \<and> githubStats r = S
            \<and> status r = ''rejected'')
         \<and> \<not> isAutoApproved ''Unknown'' \<and> \<not> APPROVED_LICENSES_has ''Unknown''
         \<and> (\<forall>spec. execSync e (npmViewCommand e (replaceRangeChar spec) ''license'') = None
               \<longrightarrow> getPackageLicense e spec = ''Unknown'')"
  using assms
  by (simp add: checkPackageCompliance_def Let_def isAutoApproved_def
      APPROVED_LICENSES_has_def APPROVED_LICENSES_def getPackageLicense_def)

theorem other_license_rejected_witness:
  "\<not> isAutoApproved (licenseOf (sampleWorld None (Some leftPadUrl) (Some popularRepo)) ''left-pad'' ''1.3.0'')
   \<and> \<not> APPROVED_LICENSES_has (licenseOf (sampleWorld None (Some leftPadUrl) (Some popularRepo)) ''left-pad'' ''1.3.0'')
   \<and> licenseOf (sampleWorld None (Some leftPadUrl) (Some popularRepo)) ''left-pad'' ''1.3.0'' = ''Unknown''
   \<and> statsOf (sampleWorld None (Some leftPadUrl) (Some popularRepo)) ''left-pad'' ''1.3.0''
       = Some \<lparr>stars = 50, forks = 5, created = 0, age = 24, actualRepo = ''left-pad/left-pad''\<rparr>
   \<and> (\<exists>r. checkPackageCompliance (sampleWorld None (Some leftPadUrl) (Some popularRepo))
              ''left-pad'' (JString ''1.3.0'') = Inr r
         \<and> status r = ''rejected'')"
proof -
  let ?e = "sampleWorld None (Some leftPadUrl) (Some popularRepo)"
  let ?S = "Some \<lparr>stars = 50, forks = 5, created = 0, age = 24, actualRepo = ''left-pad/left-pad''\<rparr>"
  have l: "licenseOf ?e ''left-pad'' ''1.3.0'' = ''Unknown''"
    by code_simp
  have h1: "\<not> isAutoApproved (licenseOf ?e ''left-pad'' ''1.3.0'')"
    by code_simp
  have h2: "\<not> APPROVED_LICENSES_has (licenseOf ?e ''left-pad'' ''1.3.0'')"
    by code_simp
  have h3: "statsOf ?e ''left-pad'' ''1.3.0'' = ?S"
    by code_simp
  from other_license_rejected [OF h1 h2 h3] l h1 h2 h3 show ?thesis
    by auto
qed

text \<open>
  Claim C4. For a license on the approved list, when no statistics were found the status
  is \<open>needs-review\<close> (so neither \<open>approved\<close> nor \<open>rejected\<close>) and the reason says that
  substantial use could not be verified.
\<close>

theorem conditional_license_without_stats:
  assumes "APPROVED_LICENSES_has (licenseOf e packageName v)"
    and "statsOf e packageName v = None"
  shows "\<exists>r. checkPackageCompliance e packageName (JString v) = Inr r
           \<and> githubStats r = None
           \<and> status r = ''needs-review''
           \<and> status r \<noteq> ''approved'' \<and> status r \<noteq> ''rejected''
           \<and> reason r = licenseOf e packageName v
                          @ '' license (approved) but unable to verify substantial use''"
  using assms approved_list_not_auto [OF assms(1)]
  by (simp add: checkPackageCompliance_def Let_def)

theorem conditional_license_without_stats_witness:
  "APPROVED_LICENSES_has (licenseOf (sampleWorld (Some ''ISC'') None None) ''left-pad'' ''^1.3.0'')
   \<and> statsOf (sampleWorld (Some ''ISC'') None None) ''left-pad'' ''^1.3.0'' = None
   \<and> (\<exists>r. checkPackageCompliance (sampleWorld (Some ''ISC'') None None)
              ''left-pad'' (JString ''^1.3.0'') = Inr r
         \<and> status r = ''needs-review''
         \<and> reason r = ''ISC license (approved) but unable to verify substantial use'')"
proof -
  let ?e = "sampleWorld (Some ''ISC'') None None"
  have l: "licenseOf ?e ''left-pad'' ''^1.3.0'' = ''ISC''"
    by code_simp
  have h1: "APPROVED_LICENSES_has (licenseOf ?e ''left-pad'' ''^1.3.0'')"
    by code_simp
  have h2: "statsOf ?e ''left-pad'' ''^1.3.0'' = None"
    by code_simp
  from conditional_license_without_stats [OF h1 h2] l h1 h2 show ?thesis
    by auto
qed

section \<open>Errors and the auto-approval test\<close>

lemma checkPackageCompliance_status:
  "\<exists>r. checkPackageCompliance e packageName (JString v) = Inr r
       \<and> name r = packageName
       \<and> (status r = ''approved'' \<or> status r = ''needs-review'' \<or> status r = ''rejected'')"
  by (simp add: checkPackageCompliance_def Let_def split: option.splits)

text \<open>
  Claim C6, as the code has it. \<open>checkPackageCompliance\<close> returns a result with one of the
  three statuses for every version that is a string, whatever the license and the
  statistics; it never fails with \<open>InvalidInput\<close>, and its only failure is the \<open>TypeError\<close>
  of a version that is not a string.
\<close>

theorem always_a_verdict:
  "(\<exists>r. checkPackageCompliance e packageName (JString v) = Inr r
        \<and> (status r = ''approved'' \<or> status r = ''needs-review'' \<or> status r = ''rejected''))
   \<and> checkPackageCompliance e packageName ver \<noteq> Inl InvalidInput
   \<and> (checkPackageCompliance e packageName ver = Inl err \<longleftrightarrow> ver = JNonString \<and> err = TypeError)"
proof -
  have "checkPackageCompliance e packageName ver \<noteq> Inl InvalidInput"
    by (cases ver) (simp_all add: checkPackageCompliance_def Let_def)
  moreover have "checkPackageCompliance e packageName ver = Inl err
      \<longleftrightarrow> ver = JNonString \<and> err = TypeError"
    by (cases ver) (auto simp: checkPackageCompliance_def Let_def)
  ultimately show ?thesis
    using checkPackageCompliance_status [of e packageName v] by blast
qed

text \<open>
  Claim C6 as written fails: statistics with a negative star count are not refused, and no
  \<open>InvalidInput\<close> error is raised. Here they even pass the adoption test, through the
  fork count.
\<close>

theorem negative_stars_counterexample:
  "checkPackageCompliance (sampleWorld (Some ''MIT'') (Some leftPadUrl) (Some negativeStarsRepo))
     ''left-pad'' (JString ''^1.3.0'')
   = Inr \<lparr>name = ''left-pad'', version = ''1.3.0'', license = ''MIT'',
          repo = Some ''left-pad/left-pad'',
          githubStats = Some \<lparr>stars = - 5, forks = 20, created = 0, age = 24,
                               actualRepo = ''left-pad/left-pad''\<rparr>,
          status = ''approved'',
          reason = ''MIT license with substantial use (-5 stars, 20 forks, 24 months old)''\<rparr>
   \<and> checkPackageCompliance (sampleWorld (Some ''MIT'') (Some leftPadUrl) (Some negativeStarsRepo))
       ''left-pad'' (JString ''^1.3.0'')
     \<noteq> Inl InvalidInput"
proof -
  have run: "checkPackageCompliance (sampleWorld (Some ''MIT'') (Some leftPadUrl) (Some negativeStarsRepo))
     ''left-pad'' (JString ''^1.3.0'')
   = Inr \<lparr>name = ''left-pad'', version = ''1.3.0'', license = ''MIT'',
          repo = Some ''left-pad/left-pad'',
          githubStats = Some \<lparr>stars = - 5, forks = 20, created = 0, age = 24,
                               actualRepo = ''left-pad/left-pad''\<rparr>,
          status = ''approved'',
          reason = ''MIT license with substantial use (-5 stars, 20 forks, 24 months old)''\<rparr>"
    by code_simp
  then show ?thesis
    by simp
qed

text \<open>
  Claim C7, as the code has it. The auto-approval branch of \<open>checkPackageCompliance\<close> is
  taken exactly for the two identifiers \<open>Apache-2.0\<close> and \<open>Apache 2.0\<close>: these two, and no
  other license, pass the auto-approval test.
\<close>

theorem auto_approval_identifiers:
  "(\<exists>r. checkPackageCompliance e packageName (JString v) = Inr r
        \<and> (reason r = ''Apache-2.0 license (automatically approved)''
             \<longleftrightarrow> license r = ''Apache-2.0'' \<or> license r = ''Apache 2.0''))
   \<and> {l. isAutoApproved l} = {''Apache-2.0'', ''Apache 2.0''}
   \<and> card {l. isAutoApproved l} = 2"
proof -
  let ?L = "licenseOf e packageName v"
  let ?auto = "''Apache-2.0 license (automatically approved)''"
  have rej: "l @ '' license is not on the LFDT approved list'' \<noteq> ?auto" for l :: string
  proof
    assume "l @ '' license is not on the LFDT approved list'' = ?auto"
    then have "last (l @ '' license is not on the LFDT approved list'') = last ?auto"
      by (rule arg_cong)
    then show False by simp
  qed
  have cond: "l @ s \<noteq> ?auto" if "APPROVED_LICENSES_has l" for l s :: string
    using that by (auto simp: APPROVED_LICENSES_has_def APPROVED_LICENSES_def)
  have set_eq: "{l. isAutoApproved l} = {''Apache-2.0'', ''Apache 2.0''}"
    by (auto simp: isAutoApproved_def)
  have "card {''Apache-2.0'', ''Apache 2.0''} = 2"
    by simp
  with set_eq have card_eq: "card {l. isAutoApproved l} = 2"
    by simp
  have "\<exists>r. checkPackageCompliance e packageName (JString v) = Inr r
        \<and> (reason r = ?auto \<longleftrightarrow> license r = ''Apache-2.0'' \<or> license r = ''Apache 2.0'')"
  proof (cases "isAutoApproved ?L")
    case True
    then show ?thesis
      by (simp add: checkPackageCompliance_def Let_def) (simp add: isAutoApproved_def)
  next
    case False
    then have no: "\<not> (?L = ''Apache-2.0'' \<or> ?L = ''Apache 2.0'')"
      by (simp add: isAutoApproved_def)
    show ?thesis
    proof (cases "APPROVED_LICENSES_has ?L")
      case True
      with False no cond [OF True] show ?thesis
        by (simp add: checkPackageCompliance_def Let_def split: option.splits)
    next
      case False
      with \<open>\<not> isAutoApproved ?L\<close> no rej [of ?L] show ?thesis
        by (simp add: checkPackageCompliance_def Let_def)
    qed
  qed
  with set_eq card_eq show ?thesis by blast
qed

text \<open>
  Claim C7 as written fails: two different identifiers pass the auto-approval test.
\<close>

theorem two_auto_approved_counterexample:
  "isAutoApproved ''Apache-2.0'' \<and> isAutoApproved ''Apache 2.0'' \<and> ''Apache-2.0'' \<noteq> ''Apache 2.0''"
  by (simp add: isAutoApproved_def)

section \<open>The aggregate outcome\<close>

lemma verifyDependencies_report:
  assumes "report (verifyDependencies e source) = Some rs"
  shows "\<exists>pj. getPackageJson e source = Inr (Some pj)
            \<and> checkEach e (allDependencies pj) emptyResults = Inr rs
            \<and> verifyDependencies e source = aggregate rs"
  using assms
  by (auto simp: verifyDependencies_def aggregate_def split: sum.splits option.splits if_splits)

text \<open>
  Claim C5. A run that reaches the end of the loop with report \<open>rs\<close> ends with exit status 1
  and the error message when the rejected bucket is not empty; otherwise with exit status 0,
  and with the warning when the needs-review bucket is not empty, with the success message
  when it is empty. A run whose manifest cannot be obtained ends with exit status 1 and no
  report.
\<close>

theorem aggregate_exit_status:
  "(report (verifyDependencies e source) = Some rs \<longrightarrow>
      verifyDependencies e source = aggregate rs
      \<and> (rejected rs \<noteq> [] \<longrightarrow>
            exitStatus (aggregate rs) = 1
            \<and> finalMessage (aggregate rs) = ErrorNonCompliant (length (rejected rs)))
      \<and> (rejected rs = [] \<and> needsReview rs \<noteq> [] \<longrightarrow>
            exitStatus (aggregate rs) = 0
            \<and> finalMessage (aggregate rs) = WarningNeedReview (length (needsReview rs)))
      \<and> (rejected rs = [] \<and> needsReview rs = [] \<longrightarrow>
            exitStatus (aggregate rs) = 0
            \<and> finalMessage (aggregate rs) = SuccessAllCompliant))
   \<and> (getPackageJson e source = Inl err \<longrightarrow>
         verifyDependencies e source
           = \<lparr>exitStatus = 1, finalMessage = ErrorReadingPackageJson err, report = None\<rparr>)"
proof -
  have "verifyDependencies e source = aggregate rs"
    if "report (verifyDependencies e source) = Some rs"
    using verifyDependencies_report [OF that] by blast
  moreover have "getPackageJson e source = Inl err \<longrightarrow>
         verifyDependencies e source
           = \<lparr>exitStatus = 1, finalMessage = ErrorReadingPackageJson err, report = None\<rparr>"
    by (simp add: verifyDependencies_def)
  ultimately show ?thesis
    by (simp add: aggregate_def)
qed

theorem aggregate_exit_status_witness:
  "(\<exists>rs. report (verifyDependencies rejectedProject ''.'') = Some rs
         \<and> rejected rs \<noteq> [] \<and> needsReview rs \<noteq> [])
   \<and> exitStatus (verifyDependencies rejectedProject ''.'') = 1
   \<and> finalMessage (verifyDependencies rejectedProject ''.'') = ErrorNonCompliant 1
   \<and> (\<exists>rs. report (verifyDependencies reviewProject ''.'') = Some rs
         \<and> rejected rs = [] \<and> needsReview rs \<noteq> [])
   \<and> exitStatus (verifyDependencies reviewProject ''.'') = 0
   \<and> finalMessage (verifyDependencies reviewProject ''.'') = WarningNeedReview 1
   \<and> (\<exists>rs. report (verifyDependencies cleanProject ''.'') = Some rs
         \<and> rejected rs = [] \<and> needsReview rs = [])
   \<and> exitStatus (verifyDependencies cleanProject ''.'') = 0
   \<and> finalMessage (verifyDependencies cleanProject ''.'') = SuccessAllCompliant
   \<and> getPackageJson cleanProject ''elsewhere'' = Inl ReadFailed
   \<and> exitStatus (verifyDependencies cleanProject ''elsewhere'') = 1"
proof -
  let ?o1 = "verifyDependencies rejectedProject ''.''"
  let ?o2 = "verifyDependencies reviewProject ''.''"
  let ?o3 = "verifyDependencies cleanProject ''.''"
  have "report ?o1 = Some (the (report ?o1))"
    and "rejected (the (report ?o1)) \<noteq> []"
    and "needsReview (the (report ?o1)) \<noteq> []"
    and "length (rejected (the (report ?o1))) = 1"
    by code_simp+
  then obtain rs1 where r1: "report ?o1 = Some rs1"
    and h1: "rejected rs1 \<noteq> []" "needsReview rs1 \<noteq> []" "length (rejected rs1) = 1"
    by blast
  have "report ?o2 = Some (the (report ?o2))"
    and "rejected (the (report ?o2)) = []"
    and "needsReview (the (report ?o2)) \<noteq> []"
    and "length (needsReview (the (report ?o2))) = 1"
    by code_simp+
  then obtain rs2 where r2: "report ?o2 = Some rs2"
    and h2: "rejected rs2 = []" "needsReview rs2 \<noteq> []" "length (needsReview rs2) = 1"
    by blast
  have "report ?o3 = Some (the (report ?o3))"
    and "rejected (the (report ?o3)) = []"
    and "needsReview (the (report ?o3)) = []"
    by code_simp+
  then obtain rs3 where r3: "report ?o3 = Some rs3"
    and h3: "rejected rs3 = []" "needsReview rs3 = []"
    by blast
  have h4: "getPackageJson cleanProject ''elsewhere'' = Inl ReadFailed"
    by code_simp
  have c1: "exitStatus ?o1 = 1 \<and> finalMessage ?o1 = ErrorNonCompliant 1"
    using aggregate_exit_status [of rejectedProject "''.''" rs1] r1 h1
    by simp
  have c2: "exitStatus ?o2 = 0 \<and> finalMessage ?o2 = WarningNeedReview 1"
    using aggregate_exit_status [of reviewProject "''.''" rs2] r2 h2
    by simp
  have c3: "exitStatus ?o3 = 0 \<and> finalMessage ?o3 = SuccessAllCompliant"
    using aggregate_exit_status [of cleanProject "''.''" rs3] r3 h3
    by simp
  have c4: "exitStatus (verifyDependencies cleanProject ''elsewhere'') = 1"
    using aggregate_exit_status [of cleanProject "''elsewhere''" _ ReadFailed] h4
    by simp
  from r1 h1 r2 h2 r3 h3 h4 c1 c2 c3 c4 show ?thesis
    by blast
qed

section \<open>The report's buckets\<close>

lemma setProperty_keys: "map fst (setProperty k v xs) = (if k \<in> fst ` set xs then map fst xs else map fst xs @ [k])"
  by (induction xs) (force split: if_splits)+

lemma setProperty_keys_set: "fst ` set (setProperty k v xs) = insert k (fst ` set xs)"
proof -
  have "set (map fst (setProperty k v xs)) = insert k (set (map fst xs))"
    unfolding setProperty_keys by auto
  then show ?thesis by simp
qed

lemma setProperty_distinct: "distinct (map fst xs) \<Longrightarrow> distinct (map fst (setProperty k v xs))"
  unfolding setProperty_keys by auto

lemma spread_keys: "fst ` set (spread obj props) = fst ` set obj \<union> fst ` set props"
  unfolding spread_def
proof (induction props arbitrary: obj)
  case Nil
  then show ?case by simp
next
  case (Cons p props)
  obtain k v where "p = (k, v)" by (cases p)
  with Cons.IH [of "setProperty k v obj"] show ?case
    by (simp add: setProperty_keys_set)
qed

lemma spread_distinct: "distinct (map fst obj) \<Longrightarrow> distinct (map fst (spread obj props))"
  unfolding spread_def
proof (induction props arbitrary: obj)
  case Nil
  then show ?case by simp
next
  case (Cons p props)
  obtain k v where "p = (k, v)" by (cases p)
  with Cons.IH [of "setProperty k v obj"] Cons.prems show ?case
    by (simp add: setProperty_distinct)
qed

lemma allDependencies_keys:
  "fst ` set (allDependencies pj)
     = fst ` set (dependencies pj) \<union> fst ` set (devDependencies pj)"
  by (simp add: allDependencies_def spread_keys)

lemma allDependencies_distinct: "distinct (map fst (allDependencies pj))"
  by (simp add: allDependencies_def spread_distinct)

lemma pushResult_buckets:
  assumes "status r = ''approved'' \<or> status r = ''needs-review'' \<or> status r = ''rejected''"
  shows "mset (allBuckets (pushResult r rs)) = add_mset r (mset (allBuckets rs))"
  using assms by (auto simp: pushResult_def)

lemma pushResult_statuses:
  assumes "\<forall>x \<in> set (approved rs). status x = ''approved''"
    and "\<forall>x \<in> set (needsReview rs). status x = ''needs-review''"
    and "\<forall>x \<in> set (rejected rs). status x = ''rejected''"
  shows "(\<forall>x \<in> set (approved (pushResult r rs)). status x = ''approved'')
       \<and> (\<forall>x \<in> set (needsReview (pushResult r rs)). status x = ''needs-review'')
       \<and> (\<forall>x \<in> set (rejected (pushResult r rs)). status x = ''rejected'')"
  using assms by (auto simp: pushResult_def)

lemma checkEach_buckets:
  assumes "checkEach e deps acc = Inr rs"
  shows "mset (allBuckets rs) = mset (allBuckets acc) + mset (map (evaluated e) deps)"
  using assms
proof (induction deps arbitrary: acc)
  case Nil
  then show ?case by simp
next
  case (Cons entry deps)
  obtain packageName ver where entry: "entry = (packageName, ver)"
    by (cases entry)
  from Cons.prems entry obtain r where
    r: "checkPackageCompliance e packageName ver = Inr r"
    and rest: "checkEach e deps (pushResult r acc) = Inr rs"
    by (auto split: sum.splits)
  from r have "ver \<noteq> JNonString"
    by (auto simp: checkPackageCompliance_def)
  then obtain v where "ver = JString v"
    by (cases ver) auto
  with r checkPackageCompliance_status [of e packageName v]
  have st: "status r = ''approved'' \<or> status r = ''needs-review'' \<or> status r = ''rejected''"
    by auto
  have "evaluated e entry = r"
    using r entry by (simp add: evaluated_def)
  with Cons.IH [OF rest] pushResult_buckets [OF st, of acc] show ?case
    by simp
qed

lemma checkEach_statuses:
  assumes "checkEach e deps acc = Inr rs"
    and "\<forall>x \<in> set (approved acc). status x = ''approved''"
    and "\<forall>x \<in> set (needsReview acc). status x = ''needs-review''"
    and "\<forall>x \<in> set (rejected acc). status x = ''rejected''"
  shows "(\<forall>x \<in> set (approved rs). status x = ''approved'')
       \<and> (\<forall>x \<in> set (needsReview rs). status x = ''needs-review'')
       \<and> (\<forall>x \<in> set (rejected rs). status x = ''rejected'')"
  using assms
proof (induction deps arbitrary: acc)
  case Nil
  then show ?case by simp
next
  case (Cons entry deps)
  obtain packageName ver where entry: "entry = (packageName, ver)"
    by (cases entry)
  from Cons.prems(1) entry obtain r where
    rest: "checkEach e deps (pushResult r acc) = Inr rs"
    by (auto split: sum.splits)
  from pushResult_statuses [OF Cons.prems(2-4), of r] Cons.IH [OF rest] show ?case
    by blast
qed

lemma evaluated_name:
  assumes "checkEach e deps acc = Inr rs"
  shows "map name (map (evaluated e) deps) = map fst deps"
  using assms
proof (induction deps arbitrary: acc)
  case Nil
  then show ?case by simp
next
  case (Cons entry deps)
  obtain packageName ver where entry: "entry = (packageName, ver)"
    by (cases entry)
  from Cons.prems entry obtain r where
    r: "checkPackageCompliance e packageName ver = Inr r"
    and rest: "checkEach e deps (pushResult r acc) = Inr rs"
    by (auto split: sum.splits)
  from r have "ver \<noteq> JNonString"
    by (auto simp: checkPackageCompliance_def)
  then obtain v where "ver = JString v"
    by (cases ver) auto
  with r checkPackageCompliance_status [of e packageName v] have "name r = packageName"
    by auto
  with r entry have "name (evaluated e entry) = fst entry"
    by (simp add: evaluated_def)
  with Cons.IH [OF rest] show ?case by simp
qed

text \<open>The loop finishes exactly when every version is a string.\<close>

lemma checkEach_finishes:
  "(\<exists>rs. checkEach e deps acc = Inr rs) \<longleftrightarrow> (\<forall>entry \<in> set deps. snd entry \<noteq> JNonString)"
proof (induction deps arbitrary: acc)
  case Nil
  then show ?case by simp
next
  case (Cons entry deps)
  obtain packageName ver where entry: "entry = (packageName, ver)"
    by (cases entry)
  show ?case
  proof (cases ver)
    case (JString v)
    with checkPackageCompliance_status [of e packageName v] obtain r where
      "checkPackageCompliance e packageName ver = Inr r"
      by blast
    with Cons.IH [of "pushResult r acc"] entry JString show ?thesis
      by simp
  next
    case JNonString
    with entry show ?thesis
      by (simp add: checkPackageCompliance_def)
  qed
qed

text \<open>
  Claim C9. When a run reaches the end of the loop, the three buckets together hold
  exactly the evaluation results of the merged dependencies, each once; the names in the
  buckets are the names of the merged dependencies, without duplicates, and they are the
  names declared in either mapping of the manifest; each bucket holds results of its own
  status only.
\<close>

theorem buckets_partition_dependencies:
  assumes "getPackageJson e source = Inr (Some pj)"
    and "report (verifyDependencies e source) = Some rs"
  shows "mset (approved rs @ needsReview rs @ rejected rs)
           = mset (map (evaluated e) (allDependencies pj))
       \<and> mset (map name (approved rs @ needsReview rs @ rejected rs))
           = mset (map fst (allDependencies pj))
       \<and> distinct (map name (approved rs @ needsReview rs @ rejected rs))
       \<and> set (map name (approved rs @ needsReview rs @ rejected rs))
           = fst ` set (dependencies pj) \<union> fst ` set (devDependencies pj)
       \<and> (\<forall>x \<in> set (approved rs). status x = ''approved'')
       \<and> (\<forall>x \<in> set (needsReview rs). status x = ''needs-review'')
       \<and> (\<forall>x \<in> set (rejected rs). status x = ''rejected'')"
proof -
  from verifyDependencies_report [OF assms(2)] assms(1)
  have loop: "checkEach e (allDependencies pj) emptyResults = Inr rs"
    by auto
  have all: "mset (allBuckets rs) = mset (map (evaluated e) (allDependencies pj))"
    using checkEach_buckets [OF loop] by (simp add: emptyResults_def)
  have "mset (map name (allBuckets rs)) = image_mset name (mset (allBuckets rs))"
    by (simp only: mset_map)
  also have "\<dots> = image_mset name (mset (map (evaluated e) (allDependencies pj)))"
    by (simp only: all)
  also have "\<dots> = mset (map name (map (evaluated e) (allDependencies pj)))"
    by (simp only: mset_map)
  also have "\<dots> = mset (map fst (allDependencies pj))"
    by (simp only: evaluated_name [OF loop])
  finally have names: "mset (map name (allBuckets rs)) = mset (map fst (allDependencies pj))" .
  from names have dist: "distinct (map name (allBuckets rs))"
    using allDependencies_distinct [of pj] by (metis mset_eq_imp_distinct_iff)
  from names have "set (map name (allBuckets rs)) = set (map fst (allDependencies pj))"
    by (rule mset_eq_setD)
  then have keys: "set (map name (allBuckets rs))
      = fst ` set (dependencies pj) \<union> fst ` set (devDependencies pj)"
    using allDependencies_keys [of pj] by simp
  have sts: "(\<forall>x \<in> set (approved rs). status x = ''approved'')
       \<and> (\<forall>x \<in> set (needsReview rs). status x = ''needs-review'')
       \<and> (\<forall>x \<in> set (rejected rs). status x = ''rejected'')"
    using checkEach_statuses [OF loop] by (simp add: emptyResults_def)
  from all names dist keys sts show ?thesis
    by blast
qed

theorem buckets_partition_dependencies_witness:
  "getPackageJson overlapProject ''.'' = Inr (Some overlapManifest)
   \<and> (\<exists>rs. report (verifyDependencies overlapProject ''.'') = Some rs
         \<and> mset (map name (approved rs @ needsReview rs @ rejected rs))
             = mset [''alpha'', ''mit-pkg'', ''gpl-pkg'']
         \<and> distinct (map name (approved rs @ needsReview rs @ rejected rs))
         \<and> (\<forall>x \<in> set (rejected rs). status x = ''rejected''))"
proof -
  have h1: "getPackageJson overlapProject ''.'' = Inr (Some overlapManifest)"
    by code_simp
  have "report (verifyDependencies overlapProject ''.'')
      = Some (the (report (verifyDependencies overlapProject ''.'')))"
    by code_simp
  then obtain rs where h2: "report (verifyDependencies overlapProject ''.'') = Some rs"
    by blast
  have keys: "map fst (allDependencies overlapManifest) = [''alpha'', ''mit-pkg'', ''gpl-pkg'']"
    by code_simp
  from buckets_partition_dependencies [OF h1 h2] keys
  have "mset (map name (approved rs @ needsReview rs @ rejected rs))
             = mset [''alpha'', ''mit-pkg'', ''gpl-pkg'']
         \<and> distinct (map name (approved rs @ needsReview rs @ rejected rs))
         \<and> (\<forall>x \<in> set (rejected rs). status x = ''rejected'')"
    by simp
  with h1 h2 show ?thesis
    by blast
qed

section \<open>The source selector\<close>

text \<open>
  The string tests and the first pattern, stated without the matching procedure: a string
  matches the first pattern when it holds \<open>github.com/\<close>, a non-empty owner without a
  slash, a slash, and a non-empty repository name without a slash or a question mark.
\<close>

lemma startsWith_iff: "startsWith s p \<longleftrightarrow> (\<exists>r. s = p @ r)"
  by (induction s p rule: startsWith.induct) auto

lemma includes_str_iff: "includes_str s p \<longleftrightarrow> (\<exists>pre suf. s = pre @ p @ suf)"
proof (induction s)
  case Nil
  then show ?case by auto
next
  case (Cons c cs)
  show ?case
  proof
    assume "includes_str (c # cs) p"
    then consider "startsWith (c # cs) p" | "includes_str cs p"
      by auto
    then show "\<exists>pre suf. c # cs = pre @ p @ suf"
    proof cases
      case 1
      then obtain r where "c # cs = p @ r"
        by (auto simp: startsWith_iff)
      then have "c # cs = [] @ p @ r" by simp
      then show ?thesis by blast
    next
      case 2
      with Cons.IH obtain pre suf where "cs = pre @ p @ suf"
        by blast
      then have "c # cs = (c # pre) @ p @ suf" by simp
      then show ?thesis by blast
    qed
  next
    assume "\<exists>pre suf. c # cs = pre @ p @ suf"
    then obtain pre suf where eq: "c # cs = pre @ p @ suf"
      by blast
    show "includes_str (c # cs) p"
    proof (cases pre)
      case Nil
      with eq have "startsWith (c # cs) p"
        by (auto simp: startsWith_iff)
      then show ?thesis by simp
    next
      case (Cons d pre')
      with eq have "cs = pre' @ p @ suf" by simp
      with Cons.IH have "includes_str cs p" by blast
      then show ?thesis by simp
    qed
  qed
qed

lemma matchGitHubUrlAt_iff:
  "(\<exists>m. matchGitHubUrlAt s = Some m)
     \<longleftrightarrow> (\<exists>a b rest. s = ''github.com/'' @ a @ ''/'' @ b @ rest
            \<and> a \<noteq> [] \<and> CHR ''/'' \<notin> set a
            \<and> b \<noteq> [] \<and> CHR ''/'' \<notin> set b \<and> CHR ''?'' \<notin> set b)"
proof
  let ?p = "\<lambda>c. c \<noteq> CHR ''/''"
  let ?q = "\<lambda>c. c \<noteq> CHR ''/'' \<and> c \<noteq> CHR ''?''"
  assume "\<exists>m. matchGitHubUrlAt s = Some m"
  then obtain m where m: "matchGitHubUrlAt s = Some m" by blast
  then have sw: "startsWith s ''github.com/''"
    by (auto simp: matchGitHubUrlAt_def split: if_splits)
  then obtain r where s: "s = ''github.com/'' @ r"
    by (auto simp: startsWith_iff)
  then have dr: "drop 11 s = r" by simp
  from m sw dr obtain slash r' where d: "dropWhile ?p r = slash # r'"
    and ne: "takeWhile ?p r \<noteq> []" "takeWhile ?q r' \<noteq> []"
    by (auto simp: matchGitHubUrlAt_def Let_def split: list.splits if_splits)
  from d have "dropWhile ?p r \<noteq> []" by simp
  then have "\<not> ?p (hd (dropWhile ?p r))" by (rule hd_dropWhile)
  with d have sl: "slash = CHR ''/''" by simp
  have "r = takeWhile ?p r @ dropWhile ?p r" by simp
  with d sl have r: "r = takeWhile ?p r @ ''/'' @ r'" by simp
  have r': "r' = takeWhile ?q r' @ dropWhile ?q r'" by simp
  from s r r' have "s = ''github.com/'' @ takeWhile ?p r @ ''/'' @ takeWhile ?q r' @ dropWhile ?q r'"
    by simp
  moreover have "CHR ''/'' \<notin> set (takeWhile ?p r)"
    by (auto dest: set_takeWhileD)
  moreover have "CHR ''/'' \<notin> set (takeWhile ?q r')" "CHR ''?'' \<notin> set (takeWhile ?q r')"
    by (auto dest: set_takeWhileD)
  ultimately show "\<exists>a b rest. s = ''github.com/'' @ a @ ''/'' @ b @ rest
            \<and> a \<noteq> [] \<and> CHR ''/'' \<notin> set a
            \<and> b \<noteq> [] \<and> CHR ''/'' \<notin> set b \<and> CHR ''?'' \<notin> set b"
    using ne by blast
next
  let ?p = "\<lambda>c. c \<noteq> CHR ''/''"
  let ?q = "\<lambda>c. c \<noteq> CHR ''/'' \<and> c \<noteq> CHR ''?''"
  assume "\<exists>a b rest. s = ''github.com/'' @ a @ ''/'' @ b @ rest
            \<and> a \<noteq> [] \<and> CHR ''/'' \<notin> set a
            \<and> b \<noteq> [] \<and> CHR ''/'' \<notin> set b \<and> CHR ''?'' \<notin> set b"
  then obtain a b rest where s: "s = ''github.com/'' @ a @ ''/'' @ b @ rest"
    and a: "a \<noteq> []" "CHR ''/'' \<notin> set a"
    and b: "b \<noteq> []" "CHR ''/'' \<notin> set b" "CHR ''?'' \<notin> set b"
    by blast
  from s have sw: "startsWith s ''github.com/''"
    by (simp add: startsWith_iff)
  from s have dr: "drop 11 s = a @ ''/'' @ b @ rest" by simp
  from a have pa: "x \<in> set a \<Longrightarrow> ?p x" for x by auto
  from b have qb: "x \<in> set b \<Longrightarrow> ?q x" for x by auto
  have "takeWhile ?p (a @ ''/'' @ b @ rest) = a @ takeWhile ?p (''/'' @ b @ rest)"
    using pa by (rule takeWhile_append2)
  then have tw: "takeWhile ?p (drop 11 s) = a"
    using dr by simp
  have "dropWhile ?p (a @ ''/'' @ b @ rest) = dropWhile ?p (''/'' @ b @ rest)"
    using pa by (rule dropWhile_append2)
  then have dw: "dropWhile ?p (drop 11 s) = CHR ''/'' # (b @ rest)"
    using dr by simp
  have "takeWhile ?q (b @ rest) = b @ takeWhile ?q rest"
    using qb by (rule takeWhile_append2)
  with b have tq: "takeWhile ?q (b @ rest) \<noteq> []" by simp
  from sw tw dw tq a show "\<exists>m. matchGitHubUrlAt s = Some m"
    by (simp add: matchGitHubUrlAt_def Let_def)
qed

lemma matchGitHubUrlAt_Nil: "matchGitHubUrlAt [] = None"
  by (simp add: matchGitHubUrlAt_def)

lemma matchGitHubUrl_search:
  "(\<exists>m. matchGitHubUrl s = Some m)
     \<longleftrightarrow> (\<exists>pre suf. s = pre @ suf \<and> (\<exists>m. matchGitHubUrlAt suf = Some m))"
proof (induction s)
  case Nil
  then show ?case by (simp add: matchGitHubUrlAt_Nil)
next
  case (Cons c cs)
  show ?case
  proof
    assume "\<exists>m. matchGitHubUrl (c # cs) = Some m"
    then consider "\<exists>m. matchGitHubUrlAt (c # cs) = Some m" | "\<exists>m. matchGitHubUrl cs = Some m"
      by (auto split: option.splits)
    then show "\<exists>pre suf. c # cs = pre @ suf \<and> (\<exists>m. matchGitHubUrlAt suf = Some m)"
    proof cases
      case 1
      have "c # cs = [] @ (c # cs)" by simp
      with 1 show ?thesis by blast
    next
      case 2
      with Cons.IH obtain pre suf where "cs = pre @ suf" "\<exists>m. matchGitHubUrlAt suf = Some m"
        by blast
      then have "c # cs = (c # pre) @ suf \<and> (\<exists>m. matchGitHubUrlAt suf = Some m)"
        by simp
      then show ?thesis by blast
    qed
  next
    assume "\<exists>pre suf. c # cs = pre @ suf \<and> (\<exists>m. matchGitHubUrlAt suf = Some m)"
    then obtain pre suf where eq: "c # cs = pre @ suf"
      and m: "\<exists>m. matchGitHubUrlAt suf = Some m"
      by blast
    show "\<exists>m. matchGitHubUrl (c # cs) = Some m"
    proof (cases pre)
      case Nil
      with eq m have "\<exists>m. matchGitHubUrlAt (c # cs) = Some m" by simp
      then show ?thesis by auto
    next
      case (Cons d pre')
      with eq have "cs = pre' @ suf" by simp
      with m Cons.IH have "\<exists>m. matchGitHubUrl cs = Some m" by blast
      then show ?thesis by (auto split: option.splits)
    qed
  qed
qed

lemma matchGitHubUrl_iff:
  "(\<exists>m. matchGitHubUrl s = Some m)
     \<longleftrightarrow> (\<exists>pre a b rest. s = pre @ ''github.com/'' @ a @ ''/'' @ b @ rest
            \<and> a \<noteq> [] \<and> CHR ''/'' \<notin> set a
            \<and> b \<noteq> [] \<and> CHR ''/'' \<notin> set b \<and> CHR ''?'' \<notin> set b)"
  unfolding matchGitHubUrl_search matchGitHubUrlAt_iff by blast

text \<open>What the second pattern accepts: two non-empty segments around a single slash.\<close>

lemma matchOwnerRepo_Some_iff:
  "matchOwnerRepo s = Some (a, b)
     \<longleftrightarrow> s = a @ ''/'' @ b \<and> a \<noteq> [] \<and> b \<noteq> [] \<and> CHR ''/'' \<notin> set a \<and> CHR ''/'' \<notin> set b"
proof
  assume m: "matchOwnerRepo s = Some (a, b)"
  let ?p = "\<lambda>c. c \<noteq> CHR ''/''"
  from m obtain slash where d: "dropWhile ?p s = slash # b" and a: "a = takeWhile ?p s"
    and ne: "a \<noteq> []" "b \<noteq> []" "CHR ''/'' \<notin> set b"
    by (auto simp: matchOwnerRepo_def Let_def split: list.splits if_splits)
  from d have "dropWhile ?p s \<noteq> []"
    by simp
  then have "\<not> ?p (hd (dropWhile ?p s))"
    by (rule hd_dropWhile)
  with d have sl: "slash = CHR ''/''" by simp
  have "s = takeWhile ?p s @ dropWhile ?p s"
    by simp
  with d a sl have "s = a @ ''/'' @ b"
    by simp
  moreover from a have "CHR ''/'' \<notin> set a"
    by (auto dest: set_takeWhileD)
  ultimately show "s = a @ ''/'' @ b \<and> a \<noteq> [] \<and> b \<noteq> [] \<and> CHR ''/'' \<notin> set a \<and> CHR ''/'' \<notin> set b"
    using ne by simp
next
  assume r: "s = a @ ''/'' @ b \<and> a \<noteq> [] \<and> b \<noteq> [] \<and> CHR ''/'' \<notin> set a \<and> CHR ''/'' \<notin> set b"
  let ?p = "\<lambda>c. c \<noteq> CHR ''/''"
  from r have na: "x \<in> set a \<Longrightarrow> ?p x" for x
    by auto
  have "takeWhile ?p (a @ ''/'' @ b) = a @ takeWhile ?p (''/'' @ b)"
    using na by (rule takeWhile_append2)
  with r have "takeWhile ?p s = a"
    by simp
  moreover have "dropWhile ?p (a @ ''/'' @ b) = dropWhile ?p (''/'' @ b)"
    using na by (rule dropWhile_append2)
  with r have "dropWhile ?p s = CHR ''/'' # b"
    by simp
  ultimately show "matchOwnerRepo s = Some (a, b)"
    using r by (simp add: matchOwnerRepo_def Let_def)
qed

text \<open>The fetcher reads no local file.\<close>

lemma fetchAndParse_local_files:
  "fetchAndParse (e\<lparr>readFileSync := f, pathJoin := g\<rparr>) cmd = fetchAndParse e cmd"
  by (simp add: fetchAndParse_def split: option.splits)

lemma fetch_local_files:
  "fetchPackageJsonFromGitHub (e\<lparr>readFileSync := f, pathJoin := g\<rparr>) source
      = fetchPackageJsonFromGitHub e source"
  by (simp add: fetchPackageJsonFromGitHub_def fetchAndParse_local_files
      split: option.splits prod.splits)


text \<open>
  Claim C10. A source that contains a slash or \<open>github.com\<close> is handed to
  \<open>fetchPackageJsonFromGitHub\<close>: what \<open>getPackageJson\<close> returns does not depend on the local
  files. When such a source matches neither pattern, \<open>getPackageJson\<close> fails with the
  invalid-URL error and the run ends with exit status 1 and no report.
\<close>

theorem slash_source_goes_to_github:
  assumes "includes_str source ''/'' \<or> includes_str source ''github.com''"
  shows "getPackageJson e source = fetchPackageJsonFromGitHub e source
       \<and> getPackageJson (e\<lparr>readFileSync := f, pathJoin := g\<rparr>) source = getPackageJson e source
       \<and> (matchGitHubUrl source = None \<and> matchOwnerRepo source = None \<longrightarrow>
            getPackageJson e source = Inl InvalidGitHubUrl
            \<and> verifyDependencies e source
                = \<lparr>exitStatus = 1, finalMessage = ErrorReadingPackageJson InvalidGitHubUrl,
                   report = None\<rparr>)"
proof -
  from assms have route: "getPackageJson e' source = fetchPackageJsonFromGitHub e' source" for e'
    by (auto simp: getPackageJson_def)
  have indep:
    "getPackageJson (e\<lparr>readFileSync := f, pathJoin := g\<rparr>) source = getPackageJson e source"
    by (simp only: route fetch_local_files)
  have bad: "getPackageJson e source = Inl InvalidGitHubUrl"
    if "matchGitHubUrl source = None" "matchOwnerRepo source = None"
    using that route [of e] by (simp add: fetchPackageJsonFromGitHub_def extractOwnerRepo_def)
  then have "verifyDependencies e source
                = \<lparr>exitStatus = 1, finalMessage = ErrorReadingPackageJson InvalidGitHubUrl,
                   report = None\<rparr>"
    if "matchGitHubUrl source = None" "matchOwnerRepo source = None"
    using that by (simp add: verifyDependencies_def)
  with route [of e] indep bad show ?thesis
    by blast
qed

theorem slash_source_goes_to_github_witness:
  "(includes_str ''/path/to/project'' ''/'' \<or> includes_str ''/path/to/project'' ''github.com'')
   \<and> matchGitHubUrl ''/path/to/project'' = None
   \<and> matchOwnerRepo ''/path/to/project'' = None
   \<and> getPackageJson cleanProject ''/path/to/project'' = Inl InvalidGitHubUrl
   \<and> getPackageJson (cleanProject\<lparr>readFileSync := (\<lambda>p. Some ''{}''), pathJoin := (\<lambda>a b. b)\<rparr>)
         ''/path/to/project'' = Inl InvalidGitHubUrl
   \<and> exitStatus (verifyDependencies cleanProject ''/path/to/project'') = 1
   \<and> report (verifyDependencies cleanProject ''/path/to/project'') = None"
proof -
  let ?src = "''/path/to/project''"
  have h1: "includes_str ?src ''/'' \<or> includes_str ?src ''github.com''"
    by code_simp
  have h2: "matchGitHubUrl ?src = None"
    by code_simp
  have h3: "matchOwnerRepo ?src = None"
    by code_simp
  note inst = slash_source_goes_to_github [OF h1, where e = cleanProject
      and f = "\<lambda>p. Some ''{}''" and g = "\<lambda>a b. b"]
  from inst h2 h3 have bad: "getPackageJson cleanProject ?src = Inl InvalidGitHubUrl"
    by blast
  from inst h2 h3 have out: "verifyDependencies cleanProject ?src
           = \<lparr>exitStatus = 1, finalMessage = ErrorReadingPackageJson InvalidGitHubUrl,
              report = None\<rparr>"
    by blast
  from inst have "getPackageJson (cleanProject\<lparr>readFileSync := (\<lambda>p. Some ''{}''), pathJoin := (\<lambda>a b. b)\<rparr>) ?src
      = getPackageJson cleanProject ?src"
    by blast
  then have local: "getPackageJson (cleanProject\<lparr>readFileSync := (\<lambda>p. Some ''{}''), pathJoin := (\<lambda>a b. b)\<rparr>) ?src
      = Inl InvalidGitHubUrl"
    using bad by (rule trans)
  from out have "exitStatus (verifyDependencies cleanProject ?src) = 1
      \<and> report (verifyDependencies cleanProject ?src) = None"
    by simp
  with h1 h2 h3 bad local show ?thesis
    by blast
qed

section \<open>Cleaning the version\<close>

text \<open>One call of \<open>replace\<close> removes one range character, when there is one.\<close>

lemma replaceRangeChar_count: "rangeChars (replaceRangeChar s) = rangeChars s - 1"
  by (induction s) (auto simp: rangeChars_def isRangeChar_def)

lemma replaceRangeChar_none: "rangeChars s = 0 \<Longrightarrow> replaceRangeChar s = s"
  by (induction s) (auto simp: rangeChars_def isRangeChar_def split: if_splits)

text \<open>The registry command that \<open>getPackageLicense\<close> runs for a dependency.\<close>

lemma getPackageLicense_command:
  "licenseOf e packageName v =
     (case execSync e
        (npmViewCommand e (replaceRangeChar (packageName @ ''@'' @ replaceRangeChar v)) ''license'')
      of None \<Rightarrow> ''Unknown''
       | Some out \<Rightarrow> if trim out = [] then ''Unknown'' else trim out)"
  by (simp add: getPackageLicense_def Let_def split: option.splits)

text \<open>
  The version is cleaned once in \<open>checkPackageCompliance\<close> and the whole specifier once
  more in each lookup, so the specifier sent to the registry has lost two range characters
  at most.
\<close>

lemma lookup_spec_range_chars:
  "rangeChars (replaceRangeChar (packageName @ ''@'' @ replaceRangeChar v))
     = rangeChars packageName + (rangeChars v - 1) - 1"
proof -
  have "rangeChars (packageName @ ''@'' @ replaceRangeChar v)
      = rangeChars packageName + rangeChars (replaceRangeChar v)"
    by (simp add: rangeChars_def isRangeChar_def)
  then show ?thesis
    by (simp add: replaceRangeChar_count)
qed

lemma checkPackageCompliance_fields:
  "\<exists>r. checkPackageCompliance e packageName (JString v) = Inr r
       \<and> version r = replaceRangeChar v
       \<and> license r = licenseOf e packageName v"
  by (simp add: checkPackageCompliance_def Let_def split: option.splits)

lemma two_range_chars_example:
  "replaceRangeChar ''^~1.0.0'' = ''~1.0.0''
   \<and> replaceRangeChar (''pkg'' @ ''@'' @ replaceRangeChar ''^~1.0.0'') = ''pkg@1.0.0''"
  by simp

text \<open>
  Claim C8 at a version with three range characters: the result keeps two of them in its
  version, and the specifier in the registry command keeps one.
\<close>

theorem third_range_char_survives:
  "(\<exists>r. checkPackageCompliance (sampleWorld None None None) ''pkg''
            (JString ''^1.0.0 || ^2.0.0 || ^3.0.0'') = Inr r
        \<and> version r = ''1.0.0 || ^2.0.0 || ^3.0.0'')
   \<and> replaceRangeChar (''pkg'' @ ''@'' @ replaceRangeChar ''^1.0.0 || ^2.0.0 || ^3.0.0'')
       = ''pkg@1.0.0 || 2.0.0 || ^3.0.0''
   \<and> npmViewCommand (sampleWorld None None None)
         (replaceRangeChar (''pkg'' @ ''@'' @ replaceRangeChar ''^1.0.0 || ^2.0.0 || ^3.0.0''))
         ''license''
       = ''npm view '' @ [CHR 0x22] @ ''pkg@1.0.0 || 2.0.0 || ^3.0.0'' @ [CHR 0x22]
           @ '' license 2>/dev/null''
   \<and> rangeChars (replaceRangeChar (''pkg'' @ ''@'' @ replaceRangeChar ''^1.0.0 || ^2.0.0 || ^3.0.0''))
       = 1"
proof -
  have "replaceRangeChar ''^1.0.0 || ^2.0.0 || ^3.0.0'' = ''1.0.0 || ^2.0.0 || ^3.0.0''"
    by simp
  with checkPackageCompliance_fields [of "sampleWorld None None None" "''pkg''"
      "''^1.0.0 || ^2.0.0 || ^3.0.0''"]
  have first: "\<exists>r. checkPackageCompliance (sampleWorld None None None) ''pkg''
            (JString ''^1.0.0 || ^2.0.0 || ^3.0.0'') = Inr r
        \<and> version r = ''1.0.0 || ^2.0.0 || ^3.0.0''"
    by auto
  have second: "replaceRangeChar (''pkg'' @ ''@'' @ replaceRangeChar ''^1.0.0 || ^2.0.0 || ^3.0.0'')
       = ''pkg@1.0.0 || 2.0.0 || ^3.0.0''"
    by simp
  have third: "npmViewCommand (sampleWorld None None None) ''pkg@1.0.0 || 2.0.0 || ^3.0.0''
         ''license''
       = ''npm view '' @ [CHR 0x22] @ ''pkg@1.0.0 || 2.0.0 || ^3.0.0'' @ [CHR 0x22]
           @ '' license 2>/dev/null''"
    by (simp add: npmViewCommand_def sampleWorld_def)
  have fourth: "rangeChars ''pkg@1.0.0 || 2.0.0 || ^3.0.0'' = 1"
    by (simp add: rangeChars_def isRangeChar_def)
  from first second third fourth show ?thesis
    by (simp only: second)
qed

end
